theory Spec2Isabelle
  imports Complex_Main "HOL-Library.Word"
begin

unbundle bit_operations_syntax

section \<open>The board: pins, buzzer and random source\<close>

text \<open>
  The sketch \<^verbatim>\<open>dice_roller.ino\<close> targets the Arduino Uno, where \<^verbatim>\<open>int\<close> is a
  16-bit two's complement integer and \<^verbatim>\<open>unsigned long\<close> has 32 bits. An \<^verbatim>\<open>int\<close> is a
  \<open>16 word\<close> read with \<open>sint\<close>; a pin number as the I/O primitives take it
  (\<^verbatim>\<open>uint8_t\<close>) is an \<open>8 word\<close>.
\<close>

type_synonym cint = "16 word"
type_synonym pin = "8 word"

datatype level = LOW | HIGH

text \<open>
  Everything the sketch does to the outside world is one of four calls of the platform.
  Each call is recorded, in order, with the arguments the platform receives: the pin and
  level of \<^verbatim>\<open>digitalWrite\<close>, the pin, frequency (Hz) and duration (ms) of \<^verbatim>\<open>tone\<close>,
  the pin of \<^verbatim>\<open>noTone\<close>, the milliseconds of \<^verbatim>\<open>delay\<close>.
\<close>

datatype event =
    DigitalWrite pin level
  | Tone pin nat nat
  | NoTone pin
  | Delay nat

text \<open>
  The state of the board: the level present on each input pin, the level last driven on
  each output pin, the platform's pseudo-random sequence (\<open>rnd_src\<close>, the raw values
  that successive calls of the generator return) with the number of values already
  consumed (\<open>rnd_pos\<close>), and the record of the calls made so far.
\<close>

record board =
  inp :: "pin \<Rightarrow> level"
  outp :: "pin \<Rightarrow> level"
  rnd_src :: "nat \<Rightarrow> nat"
  rnd_pos :: nat
  trace :: "event list"

subsection \<open>Platform primitives\<close>

text \<open>
  The digital I/O, the tone generator, the blocking delay and the random number
  generator belong to the platform and are not part of the sources.
\<close>

text \<open>
  Modelled from the spec: \<^verbatim>\<open>digitalWrite(uint8_t pin, uint8_t val)\<close>, absent from the
  sources, drives the pin low when \<open>val\<close> is \<^verbatim>\<open>LOW\<close> (0) and high otherwise.
\<close>

definition digitalWrite :: "pin \<Rightarrow> 8 word \<Rightarrow> board \<Rightarrow> board" where
  "digitalWrite p val s =
     (let l = (if val = 0 then LOW else HIGH)
      in s\<lparr>outp := (outp s)(p := l), trace := trace s @ [DigitalWrite p l]\<rparr>)"

text \<open>
  Modelled from the spec: \<^verbatim>\<open>digitalRead(pin)\<close>, absent from the sources, returns the level
  present on the pin.
\<close>

definition digitalRead :: "pin \<Rightarrow> board \<Rightarrow> level" where
  "digitalRead p s = inp s p"

text \<open>
  Modelled from the spec: \<^verbatim>\<open>tone(pin, frequency, duration)\<close>, absent from the sources,
  starts a square wave of the given frequency (Hz) on the pin for the given duration
  (ms) and returns at once.
\<close>

definition tone :: "pin \<Rightarrow> nat \<Rightarrow> nat \<Rightarrow> board \<Rightarrow> board" where
  "tone p frequency duration s = s\<lparr>trace := trace s @ [Tone p frequency duration]\<rparr>"

text \<open>
  Modelled from the spec: \<^verbatim>\<open>noTone(pin)\<close>, absent from the sources, silences the pin.
\<close>

definition noTone :: "pin \<Rightarrow> board \<Rightarrow> board" where
  "noTone p s = s\<lparr>trace := trace s @ [NoTone p]\<rparr>"

text \<open>
  Modelled from the spec: \<^verbatim>\<open>delay(unsigned long ms)\<close>, absent from the sources, blocks for
  \<open>ms\<close> milliseconds.
\<close>

definition delay :: "nat \<Rightarrow> board \<Rightarrow> board" where
  "delay ms s = s\<lparr>trace := trace s @ [Delay ms]\<rparr>"

text \<open>
  An \<^verbatim>\<open>int\<close> argument passed where the platform expects an \<^verbatim>\<open>unsigned long\<close> is
  converted modulo \<open>2 ^ 32\<close>.
\<close>

definition ulong_of_int :: "cint \<Rightarrow> nat" where
  "ulong_of_int x = nat (sint x mod 2 ^ 32)"

text \<open>
  Modelled from the spec: \<^verbatim>\<open>random(max)\<close>, absent from the sources, takes the next raw
  value of the generator and reduces it to \<open>[0, max)\<close>.
\<close>

definition random_max :: "nat \<Rightarrow> board \<Rightarrow> nat \<times> board" where
  "random_max howbig s =
     (if howbig = 0 then (0, s)
      else (rnd_src s (rnd_pos s) mod howbig, s\<lparr>rnd_pos := Suc (rnd_pos s)\<rparr>))"

text \<open>
  Modelled from the spec: \<^verbatim>\<open>random(min, max)\<close>, absent from the sources, is \<open>min\<close> plus
  a value of \<^verbatim>\<open>random(max - min)\<close>, so it lies in \<open>[min, max)\<close>.
\<close>

definition random_range :: "nat \<Rightarrow> nat \<Rightarrow> board \<Rightarrow> nat \<times> board" where
  "random_range howsmall howbig s =
     (if howsmall \<ge> howbig then (howsmall, s)
      else (let (r, s') = random_max (howbig - howsmall) s in (r + howsmall, s')))"

subsection \<open>Hardware configuration\<close>

definition seg1_pins :: "cint list" where
  "seg1_pins = [3, 4, 5]"

definition seg2_pins :: "cint list" where
  "seg2_pins = [8, 9, 10]"

definition button1 :: cint where
  "button1 = 2"

definition button2 :: cint where
  "button2 = 11"

definition buzzerPin :: cint where
  "buzzerPin = 6"

section \<open>The BCD display driver\<close>

text \<open>
  An array parameter \<^verbatim>\<open>const int pins[]\<close> is a list; reading it outside its bounds has
  no defined behaviour in C and is the one failure of the model (\<open>None\<close>).
\<close>

definition array_read :: "cint list \<Rightarrow> cint \<Rightarrow> cint option" where
  "array_read a i =
     (if 0 \<le> sint i \<and> nat (sint i) < length a then Some (a ! nat (sint i)) else None)"

text \<open>
  A loop counter \<open>i\<close> that is below some \<^verbatim>\<open>int\<close> can be incremented without overflow.
\<close>

lemma sint_succ: "sint (i::cint) < sint (c::cint) \<Longrightarrow> sint (i + 1) = sint i + 1"
proof -
  assume a: "sint i < sint c"
  have "sint c \<le> 32767" using sint_lt[of c] by simp
  moreover have "- 32768 \<le> sint i" using sint_ge[of i] by simp
  ultimately have r: "- (2 ^ 15) \<le> sint i + 1 \<and> sint i + 1 < 2 ^ 15"
    using a by simp
  have "sint (i + 1) = signed_take_bit 15 (sint i + 1)"
    by (simp add: sint_word_ariths)
  also have "\<dots> = sint i + 1"
    using r by (simp add: signed_take_bit_int_eq_self)
  finally show ?thesis .
qed

text \<open>
  \<^verbatim>\<open>for(int i = 0; i < 3; i++) digitalWrite(pins[i], number >> i & 0x01);\<close>
  The loop from counter \<open>i\<close> on. \<^verbatim>\<open>>>\<close> binds tighter than \<^verbatim>\<open>&\<close>; on a signed
  \<^verbatim>\<open>int\<close> the compiler shifts arithmetically (\<open>signed_drop_bit\<close>).
\<close>

function showNumber_loop :: "cint \<Rightarrow> cint \<Rightarrow> cint list \<Rightarrow> board \<Rightarrow> board option" where
  "showNumber_loop i number pins s =
     (if i <s 3 then
        (case array_read pins i of
           None \<Rightarrow> None
         | Some p \<Rightarrow>
             showNumber_loop (i + 1) number pins
               (digitalWrite (ucast p) (ucast (signed_drop_bit (nat (sint i)) number AND 1)) s))
      else Some s)"
  by pat_completeness auto
termination
  by (relation "measure (\<lambda>(i, number, pins, s). nat (3 - sint i))")
     (simp_all add: word_sless_alt sint_succ [where c = 3])

definition showNumber :: "cint \<Rightarrow> cint list \<Rightarrow> board \<Rightarrow> board option" where
  "showNumber number pins s = showNumber_loop 0 number pins s"

declare showNumber_loop.simps [simp del]

section \<open>Sound effects\<close>

text \<open>
  \<^verbatim>\<open>for (int i = 0; i < duration; i++) { tone(buzzerPin, 500 + random(500), 20); delay(20); }\<close>
  The loop from counter \<open>i\<close> on. The pitch \<^verbatim>\<open>500 + random(500)\<close> is below 1000, so its
  conversion to the \<^verbatim>\<open>unsigned int\<close> that \<^verbatim>\<open>tone\<close> takes keeps its value.
\<close>

function playRollSound_loop :: "cint \<Rightarrow> cint \<Rightarrow> board \<Rightarrow> board" where
  "playRollSound_loop i duration s =
     (if i <s duration then
        (let (r, s1) = random_max 500 s;
             s2 = tone (ucast buzzerPin) (500 + r) 20 s1
         in playRollSound_loop (i + 1) duration (delay 20 s2))
      else s)"
  by pat_completeness auto
termination
  by (relation "measure (\<lambda>(i, duration, s). nat (sint duration - sint i))")
     (simp_all add: word_sless_alt sint_succ)

declare playRollSound_loop.simps [simp del]

definition playRollSound :: "cint \<Rightarrow> board \<Rightarrow> board" where
  "playRollSound duration s = noTone (ucast buzzerPin) (playRollSound_loop 0 duration s)"

definition playStopSound :: "board \<Rightarrow> board" where
  "playStopSound s =
     noTone (ucast buzzerPin) (delay 100 (tone (ucast buzzerPin) 200 100 s))"

section \<open>Dice animation and final result\<close>

text \<open>
  \<^verbatim>\<open>playRollSound(i * 0.5)\<close>: the counter is converted to \<^verbatim>\<open>double\<close>, multiplied by
  one half, and the product is converted back to the \<^verbatim>\<open>int\<close> parameter by discarding its
  fractional part. Every 16-bit integer and its half are exactly representable in the
  board's floating-point format, so the product is the exact rational number.
\<close>

definition int_to_double :: "cint \<Rightarrow> rat" where
  "int_to_double i = of_int (sint i)"

definition double_to_int :: "rat \<Rightarrow> cint" where
  "double_to_int x = of_int (if 0 \<le> x then \<lfloor>x\<rfloor> else \<lceil>x\<rceil>)"

definition roll_intensity :: "cint \<Rightarrow> cint" where
  "roll_intensity i = double_to_int (int_to_double i * (1 / 2))"

text \<open>
  The body of the loop of \<^verbatim>\<open>rollDice\<close> for counter \<open>i\<close>. The value of
  \<^verbatim>\<open>random(1, 7)\<close>, a \<^verbatim>\<open>long\<close>, is converted to the \<^verbatim>\<open>int\<close> parameter of
  \<^verbatim>\<open>showNumber\<close>; the \<^verbatim>\<open>int\<close> sum \<^verbatim>\<open>delayTime + i * 2\<close> is converted to the
  \<^verbatim>\<open>unsigned long\<close> parameter of \<^verbatim>\<open>delay\<close>. The sum is computed in 16 bits, as the
  board's two's complement arithmetic does; C itself leaves a sum outside the range of
  \<^verbatim>\<open>int\<close> undefined, and the properties below that speak of the pause are stated for
  sums within the range.
\<close>

definition rollDice_body :: "cint \<Rightarrow> cint \<Rightarrow> board \<Rightarrow> board option" where
  "rollDice_body i delayTime s =
     (let s1 = playRollSound (roll_intensity i) s;
          (r1, s2) = random_range 1 7 s1
      in Option.bind (showNumber (of_nat r1) seg1_pins s2) (\<lambda>s3.
           let (r2, s4) = random_range 1 7 s3
           in Option.bind (showNumber (of_nat r2) seg2_pins s4) (\<lambda>s5.
                Some (delay (ulong_of_int (delayTime + i * 2)) s5))))"

function rollDice_loop :: "cint \<Rightarrow> cint \<Rightarrow> cint \<Rightarrow> board \<Rightarrow> board option" where
  "rollDice_loop i count delayTime s =
     (if i <s count then
        (case rollDice_body i delayTime s of
           None \<Rightarrow> None
         | Some s' \<Rightarrow> rollDice_loop (i + 1) count delayTime s')
      else Some s)"
  by pat_completeness auto
termination
  by (relation "measure (\<lambda>(i, count, delayTime, s). nat (sint count - sint i))")
     (simp_all add: word_sless_alt sint_succ)

declare rollDice_loop.simps [simp del]

definition rollDice :: "cint \<Rightarrow> cint \<Rightarrow> board \<Rightarrow> board option" where
  "rollDice count delayTime s = rollDice_loop 0 count delayTime s"

definition showResult :: "board \<Rightarrow> board option" where
  "showResult s =
     (let (r1, s1) = random_range 1 7 s
      in Option.bind (showNumber (of_nat r1) seg1_pins s1) (\<lambda>s2.
           let (r2, s3) = random_range 1 7 s2
           in showNumber (of_nat r2) seg2_pins s3))"

section \<open>The event loop\<close>

text \<open>
  One pass of \<^verbatim>\<open>loop()\<close>. The second button is read only when the first is not low
  (\<^verbatim>\<open>||\<close> short-circuits); reading changes nothing.
\<close>

definition loop :: "board \<Rightarrow> board option" where
  "loop s =
     (if digitalRead (ucast button1) s = LOW \<or> digitalRead (ucast button2) s = LOW then
        Option.bind (rollDice 20 50 s) (\<lambda>s1.
          Option.bind (showResult (playStopSound s1)) (\<lambda>s2.
            Some (delay 300 s2)))
      else Some s)"

section \<open>What the board receives\<close>

text \<open>
  The level a pin receives when \<^verbatim>\<open>(n >> i) & 1\<close> is written to it: low for 0, high for 1.
\<close>

definition bit_level :: "int \<Rightarrow> nat \<Rightarrow> level" where
  "bit_level n i = (if drop_bit i n AND 1 = 0 then LOW else HIGH)"

text \<open>One display update: bits 0, 1 and 2 of \<open>n\<close> written to the three pins in order.\<close>

definition show_events :: "int \<Rightarrow> pin list \<Rightarrow> event list" where
  "show_events n ps =
     [DigitalWrite (ps ! 0) (bit_level n 0),
      DigitalWrite (ps ! 1) (bit_level n 1),
      DigitalWrite (ps ! 2) (bit_level n 2)]"

text \<open>
  The die face and the pitch that the raw value at position \<open>p\<close> of the random sequence
  yields through \<^verbatim>\<open>random(1, 7)\<close> and \<^verbatim>\<open>500 + random(500)\<close>.
\<close>

definition die_value :: "(nat \<Rightarrow> nat) \<Rightarrow> nat \<Rightarrow> nat" where
  "die_value src p = src p mod 6 + 1"

definition roll_pitch :: "(nat \<Rightarrow> nat) \<Rightarrow> nat \<Rightarrow> nat" where
  "roll_pitch src p = 500 + src p mod 500"

text \<open>\<open>k\<close> tones of 20 ms on the buzzer, each followed by a pause of 20 ms.\<close>

definition tone_slices :: "(nat \<Rightarrow> nat) \<Rightarrow> nat \<Rightarrow> nat \<Rightarrow> event list" where
  "tone_slices src p k =
     concat (map (\<lambda>j. [Tone 6 (roll_pitch src (p + j)) 20, Delay 20]) [0..<k])"

fun is_tone :: "event \<Rightarrow> bool" where
  "is_tone (Tone p f d) = True"
| "is_tone e = False"

text \<open>The state after the write of bit \<open>k\<close> in \<^verbatim>\<open>showNumber\<close>.\<close>

definition write_bit :: "cint list \<Rightarrow> cint \<Rightarrow> nat \<Rightarrow> board \<Rightarrow> board" where
  "write_bit pins n k s =
     s\<lparr>outp := (outp s)(ucast (pins ! k) := bit_level (sint n) k),
       trace := trace s @ [DigitalWrite (ucast (pins ! k)) (bit_level (sint n) k)]\<rparr>"

text \<open>
  One animation frame that plays \<open>k\<close> tones and then pauses for \<open>ms\<close> milliseconds,
  starting at position \<open>p\<close> of the random sequence: the roll sound, a display update of
  die 1, a display update of die 2, the pause.
\<close>

definition frame_events :: "(nat \<Rightarrow> nat) \<Rightarrow> nat \<Rightarrow> nat \<Rightarrow> nat \<Rightarrow> event list" where
  "frame_events src p k ms =
     tone_slices src p k @ [NoTone 6]
     @ show_events (int (die_value src (p + k))) [3, 4, 5]
     @ show_events (int (die_value src (p + k + 1))) [8, 9, 10]
     @ [Delay ms]"

text \<open>The number of random values consumed before frame \<open>i\<close> of an animation begins.\<close>

fun frame_start :: "nat \<Rightarrow> nat" where
  "frame_start 0 = 0"
| "frame_start (Suc i) = frame_start i + (i div 2 + 2)"

text \<open>
  The frames \<open>is\<close> of an animation with base delay \<open>d\<close> that starts at position \<open>p\<close> of
  the random sequence: frame \<open>i\<close> plays \<open>i div 2\<close> tones and pauses for \<open>d + i * 2\<close>
  milliseconds.
\<close>

definition frames_events :: "(nat \<Rightarrow> nat) \<Rightarrow> nat \<Rightarrow> nat \<Rightarrow> nat list \<Rightarrow> event list" where
  "frames_events src p d is =
     concat (map (\<lambda>i. frame_events src (p + frame_start i) (i div 2) (d + i * 2)) is)"

text \<open>Whether a call is a write to pin \<open>q\<close>.\<close>

fun is_write_to :: "pin \<Rightarrow> event \<Rightarrow> bool" where
  "is_write_to q (DigitalWrite p l) = (p = q)"
| "is_write_to q e = False"

text \<open>
  The pause of frame \<open>i\<close>: the \<^verbatim>\<open>int\<close> sum \<^verbatim>\<open>delayTime + i * 2\<close>, computed in 16 bits,
  as \<^verbatim>\<open>delay\<close> receives it after the conversion to \<^verbatim>\<open>unsigned long\<close>.
\<close>

definition frame_pause :: "cint \<Rightarrow> nat \<Rightarrow> nat" where
  "frame_pause delayTime i = ulong_of_int (delayTime + of_nat i * 2)"

text \<open>
  The frames \<open>is\<close> of an animation that starts at position \<open>p\<close> of the random sequence:
  frame \<open>i\<close> plays \<open>i div 2\<close> tones and pauses for \<open>pause i\<close> milliseconds.
\<close>

definition paused_frames ::
  "(nat \<Rightarrow> nat) \<Rightarrow> nat \<Rightarrow> (nat \<Rightarrow> nat) \<Rightarrow> nat list \<Rightarrow> event list" where
  "paused_frames src p pause is =
     concat (map (\<lambda>i. frame_events src (p + frame_start i) (i div 2) (pause i)) is)"

text \<open>
  The tones of each frame of a record of calls: the number of tones since the previous
  display update of die 1, listed at each display update of die 1 (a write to pin 3,
  the first pin a frame writes after its roll sound).
\<close>

fun frame_tones :: "nat \<Rightarrow> event list \<Rightarrow> nat list" where
  "frame_tones a [] = []"
| "frame_tones a (Tone p f d # es) = frame_tones (Suc a) es"
| "frame_tones a (DigitalWrite p l # es) =
     (if p = 3 then a # frame_tones 0 es else frame_tones a es)"
| "frame_tones a (NoTone p # es) = frame_tones a es"
| "frame_tones a (Delay ms # es) = frame_tones a es"

text \<open>
  A board at rest: both buttons released (inputs pulled high), every output low, nothing
  recorded yet, and \<open>src\<close> as the random sequence.
\<close>

definition quiet_board :: "(nat \<Rightarrow> nat) \<Rightarrow> board" where
  "quiet_board src =
     \<lparr>inp = (\<lambda>p. HIGH), outp = (\<lambda>p. LOW), rnd_src = src, rnd_pos = 0, trace = []\<rparr>"

section \<open>Properties of the display driver\<close>

lemma odd_sint: "odd (sint (w::cint)) = odd w"
proof -
  have "odd (sint w) = bit (sint w) 0" by (simp add: bit_0)
  also have "\<dots> = bit w 0" by (simp add: bit_sint_iff)
  also have "\<dots> = odd w" by (simp add: bit_0)
  finally show ?thesis .
qed

lemma ucast_and1: "((ucast ((w::cint) AND 1) :: 8 word) = 0) = (sint w mod 2 = 0)"
proof (cases "odd w")
  case True
  then have "w AND 1 = 1" by (simp add: and_one_eq mod_2_eq_odd)
  moreover have "sint w mod 2 \<noteq> 0" using True odd_sint [of w] by presburger
  ultimately show ?thesis by simp
next
  case False
  then have "w AND 1 = 0" by (simp add: and_one_eq mod_2_eq_odd)
  moreover have "sint w mod 2 = 0" using False odd_sint [of w] by presburger
  ultimately show ?thesis by simp
qed

lemma written_level:
  "(if (ucast (signed_drop_bit k (n::cint) AND 1) :: 8 word) = 0 then LOW else HIGH)
     = bit_level (sint n) k"
proof -
  have "sint (signed_drop_bit k n) = drop_bit k (sint n)"
    by (simp add: sint_signed_drop_bit_eq)
  moreover have "drop_bit k (sint n) AND 1 = drop_bit k (sint n) mod 2"
    by (simp add: and_one_eq)
  ultimately show ?thesis
    using ucast_and1 [of "signed_drop_bit k n"] by (simp add: bit_level_def)
qed

lemma digitalWrite_bit:
  "digitalWrite (ucast (pins ! k)) (ucast (signed_drop_bit k n AND 1)) s = write_bit pins n k s"
  using written_level [of k n] by (simp add: digitalWrite_def write_bit_def Let_def)

lemma showNumber_loop_step:
  assumes "0 \<le> sint i" and "sint i < 3" and "nat (sint i) < length pins"
  shows "showNumber_loop i n pins s =
         showNumber_loop (i + 1) n pins (write_bit pins n (nat (sint i)) s)"
  using assms
  by (subst showNumber_loop.simps) (simp add: word_sless_alt array_read_def digitalWrite_bit)

lemma showNumber_loop_stop: "3 \<le> sint i \<Longrightarrow> showNumber_loop i n pins s = Some s"
  by (subst showNumber_loop.simps) (simp add: word_sless_alt)

lemma showNumber_unfold:
  assumes "2 < length pins"
  shows "showNumber n pins s =
         Some (write_bit pins n 2 (write_bit pins n 1 (write_bit pins n 0 s)))"
proof -
  from assms have ne: "pins \<noteq> []" by auto
  have "showNumber_loop 0 n pins s = showNumber_loop 1 n pins (write_bit pins n 0 s)"
    using ne showNumber_loop_step [of 0 pins n s] by simp
  also have "\<dots> = showNumber_loop 2 n pins (write_bit pins n 1 (write_bit pins n 0 s))"
    using assms showNumber_loop_step [of 1 pins n "write_bit pins n 0 s"] by simp
  also have "\<dots> = showNumber_loop 3 n pins
      (write_bit pins n 2 (write_bit pins n 1 (write_bit pins n 0 s)))"
    using assms
      showNumber_loop_step [of 2 pins n "write_bit pins n 1 (write_bit pins n 0 s)"]
    by simp
  also have "\<dots> = Some (write_bit pins n 2 (write_bit pins n 1 (write_bit pins n 0 s)))"
    by (simp add: showNumber_loop_stop)
  finally show ?thesis by (simp add: showNumber_def)
qed

lemma showNumber_trace:
  assumes "length pins = 3"
  shows "map_option trace (showNumber n pins s) =
           Some (trace s @ [DigitalWrite (ucast (pins ! 0)) (bit_level (sint n) 0),
                            DigitalWrite (ucast (pins ! 1)) (bit_level (sint n) 1),
                            DigitalWrite (ucast (pins ! 2)) (bit_level (sint n) 2)])"
  using assms by (simp add: showNumber_unfold write_bit_def)

lemma showNumber_outp:
  assumes "length pins = 3" and "distinct (map ucast pins :: pin list)"
  shows "map_option (\<lambda>s'. map (outp s') (map ucast pins)) (showNumber n pins s) =
           Some [bit_level (sint n) 0, bit_level (sint n) 1, bit_level (sint n) 2]"
proof -
  from assms(1) obtain a b c where p: "pins = [a, b, c]"
    by (cases pins; cases "tl pins"; cases "tl (tl pins)") auto
  with assms(2) show ?thesis
    by (simp add: showNumber_unfold write_bit_def)
qed

text \<open>
  C1. For every number from 1 to 6 and every sequence of three pins, \<^verbatim>\<open>showNumber\<close>
  succeeds and makes exactly three writes, in order: the first pin receives \<open>n & 1\<close>,
  the second \<open>(n >> 1) & 1\<close>, the third \<open>(n >> 2) & 1\<close>. When the three pins are
  different pins, these are the levels they hold afterwards.
\<close>

theorem showNumber_in_range:
  assumes "1 \<le> sint n" and "sint n \<le> 6" and "length pins = 3"
  shows "map_option trace (showNumber n pins s) =
           Some (trace s @ [DigitalWrite (ucast (pins ! 0)) (bit_level (sint n) 0),
                            DigitalWrite (ucast (pins ! 1)) (bit_level (sint n) 1),
                            DigitalWrite (ucast (pins ! 2)) (bit_level (sint n) 2)])
       \<and> (distinct (map ucast pins :: pin list) \<longrightarrow>
            map_option (\<lambda>s'. map (outp s') (map ucast pins)) (showNumber n pins s) =
              Some [bit_level (sint n) 0, bit_level (sint n) 1, bit_level (sint n) 2])"
  using assms(3) showNumber_trace [of pins n s] showNumber_outp [of pins n s] by simp

theorem showNumber_in_range_witness:
  "1 \<le> sint (5 :: cint) \<and> sint (5 :: cint) \<le> 6 \<and> length seg1_pins = 3
   \<and> distinct (map ucast seg1_pins :: pin list)
   \<and> map_option trace (showNumber 5 seg1_pins (quiet_board (\<lambda>n. n))) =
        Some [DigitalWrite 3 HIGH, DigitalWrite 4 LOW, DigitalWrite 5 HIGH]
   \<and> map_option (\<lambda>s'. map (outp s') [3, 4, 5]) (showNumber 5 seg1_pins (quiet_board (\<lambda>n. n))) =
        Some [HIGH, LOW, HIGH]"
  using showNumber_in_range [of 5 seg1_pins "quiet_board (\<lambda>n. n)"]
  by (simp add: seg1_pins_def quiet_board_def bit_level_def)

text \<open>
  C8. A number outside 1..6 (zero, 7 and above, or negative) is not rejected:
  \<^verbatim>\<open>showNumber\<close> succeeds and makes the same three writes of \<open>(n >> i) & 1\<close>,
  \<open>i = 0, 1, 2\<close>.
\<close>

theorem showNumber_out_of_range:
  assumes "sint n < 1 \<or> 6 < sint n" and "length pins = 3"
  shows "showNumber n pins s \<noteq> None
       \<and> map_option trace (showNumber n pins s) =
           Some (trace s @ [DigitalWrite (ucast (pins ! 0)) (bit_level (sint n) 0),
                            DigitalWrite (ucast (pins ! 1)) (bit_level (sint n) 1),
                            DigitalWrite (ucast (pins ! 2)) (bit_level (sint n) 2)])"
proof -
  have "map_option trace (showNumber n pins s) =
           Some (trace s @ [DigitalWrite (ucast (pins ! 0)) (bit_level (sint n) 0),
                            DigitalWrite (ucast (pins ! 1)) (bit_level (sint n) 1),
                            DigitalWrite (ucast (pins ! 2)) (bit_level (sint n) 2)])"
    using assms(2) by (rule showNumber_trace)
  then show ?thesis by auto
qed

theorem showNumber_out_of_range_witness:
  "(sint (- 3 :: cint) < 1 \<or> 6 < sint (- 3 :: cint))
   \<and> (sint (8 :: cint) < 1 \<or> 6 < sint (8 :: cint))
   \<and> length seg2_pins = 3
   \<and> map_option trace (showNumber (- 3) seg2_pins (quiet_board (\<lambda>n. n))) =
        Some [DigitalWrite 8 HIGH, DigitalWrite 9 LOW, DigitalWrite 10 HIGH]
   \<and> map_option trace (showNumber 8 seg2_pins (quiet_board (\<lambda>n. n))) =
        Some [DigitalWrite 8 LOW, DigitalWrite 9 LOW, DigitalWrite 10 LOW]"
  using showNumber_out_of_range [of "- 3" seg2_pins "quiet_board (\<lambda>n. n)"]
    showNumber_out_of_range [of 8 seg2_pins "quiet_board (\<lambda>n. n)"]
  by (simp add: seg2_pins_def quiet_board_def bit_level_def)

text \<open>
  C9. \<^verbatim>\<open>showNumber\<close> touches only the three pins it is given: every other pin keeps
  its level, every write it makes names one of the three pins, and the inputs and the
  random source are left as they were.
\<close>

theorem showNumber_only_named_pins:
  assumes "length pins = 3"
  shows "\<exists>s'. showNumber n pins s = Some s'
           \<and> (\<forall>p. p \<notin> set (map ucast pins) \<longrightarrow> outp s' p = outp s p)
           \<and> (\<forall>e \<in> set (drop (length (trace s)) (trace s')).
                 \<exists>p \<in> set (map ucast pins). \<exists>l. e = DigitalWrite p l)
           \<and> inp s' = inp s \<and> rnd_src s' = rnd_src s \<and> rnd_pos s' = rnd_pos s"
proof -
  from assms obtain a b c where p: "pins = [a, b, c]"
    by (cases pins; cases "tl pins"; cases "tl (tl pins)") auto
  then show ?thesis
    by (simp add: showNumber_unfold write_bit_def)
qed

theorem showNumber_only_named_pins_witness:
  "length seg1_pins = 3 \<and> (8 :: pin) \<notin> set (map ucast seg1_pins)
   \<and> map_option (\<lambda>s'. outp s' 8)
        (showNumber 5 seg1_pins ((quiet_board (\<lambda>n. n))\<lparr>outp := (\<lambda>p. HIGH)\<rparr>)) = Some HIGH
   \<and> map_option trace
        (showNumber 5 seg1_pins ((quiet_board (\<lambda>n. n))\<lparr>outp := (\<lambda>p. HIGH)\<rparr>)) =
        Some [DigitalWrite 3 HIGH, DigitalWrite 4 LOW, DigitalWrite 5 HIGH]"
proof -
  have len: "length seg1_pins = 3" by (simp add: seg1_pins_def)
  from showNumber_only_named_pins [OF len, of 5 "(quiet_board (\<lambda>n. n))\<lparr>outp := (\<lambda>p. HIGH)\<rparr>"]
  obtain s' where s': "showNumber 5 seg1_pins ((quiet_board (\<lambda>n. n))\<lparr>outp := (\<lambda>p. HIGH)\<rparr>) = Some s'"
    and keep: "\<forall>p. p \<notin> set (map ucast seg1_pins) \<longrightarrow>
                 outp s' p = outp ((quiet_board (\<lambda>n. n))\<lparr>outp := (\<lambda>p. HIGH)\<rparr>) p"
    by blast
  have out: "(8 :: pin) \<notin> set (map ucast seg1_pins)" by (simp add: seg1_pins_def)
  with keep have "outp s' 8 = HIGH" by simp
  moreover have "map_option trace
        (showNumber 5 seg1_pins ((quiet_board (\<lambda>n. n))\<lparr>outp := (\<lambda>p. HIGH)\<rparr>)) =
        Some [DigitalWrite 3 HIGH, DigitalWrite 4 LOW, DigitalWrite 5 HIGH]"
    using showNumber_trace [OF len, of 5 "(quiet_board (\<lambda>n. n))\<lparr>outp := (\<lambda>p. HIGH)\<rparr>"]
    by (simp add: seg1_pins_def quiet_board_def bit_level_def)
  ultimately show ?thesis using s' len out by simp
qed

section \<open>Properties of the sound effects\<close>

lemma tone_slices_0: "tone_slices src p 0 = []"
  by (simp add: tone_slices_def)

lemma tone_slices_Suc:
  "tone_slices src p (Suc k) =
     [Tone 6 (roll_pitch src p) 20, Delay 20] @ tone_slices src (Suc p) k"
proof -
  have "[0..<Suc k] = 0 # map Suc [0..<k]"
    by (simp add: upt_conv_Cons map_Suc_upt del: upt_Suc)
  then show ?thesis
    by (simp add: tone_slices_def comp_def del: upt_Suc)
qed

lemma tone_slices_count: "length (filter is_tone (tone_slices src p k)) = k"
  by (induction k arbitrary: p) (simp_all add: tone_slices_0 tone_slices_Suc)

lemma roll_pitch_range: "500 \<le> roll_pitch src p \<and> roll_pitch src p < 1000"
  by (simp add: roll_pitch_def)

lemma playRollSound_loop_run:
  "playRollSound_loop i k s =
     s\<lparr>rnd_pos := rnd_pos s + nat (sint k - sint i),
       trace := trace s @ tone_slices (rnd_src s) (rnd_pos s) (nat (sint k - sint i))\<rparr>"
proof (induction i k s rule: playRollSound_loop.induct)
  case (1 i k s)
  show ?case
  proof (cases "i <s k")
    case False
    then have "nat (sint k - sint i) = 0" by (simp add: word_sless_alt)
    with False show ?thesis
      by (subst playRollSound_loop.simps) (simp add: tone_slices_0)
  next
    case True
    define s2 where "s2 = tone (ucast buzzerPin) (500 + rnd_src s (rnd_pos s) mod 500) 20
        (s\<lparr>rnd_pos := Suc (rnd_pos s)\<rparr>)"
    have lt: "sint i < sint k" using True by (simp add: word_sless_alt)
    then have n: "nat (sint k - sint i) = Suc (nat (sint k - sint (i + 1)))"
      by (simp add: sint_succ [OF lt])
    have "playRollSound_loop i k s = playRollSound_loop (i + 1) k (delay 20 s2)"
      using True by (subst playRollSound_loop.simps) (simp add: random_max_def s2_def)
    also have "\<dots> = (delay 20 s2)\<lparr>rnd_pos := rnd_pos (delay 20 s2) + nat (sint k - sint (i + 1)),
       trace := trace (delay 20 s2) @ tone_slices (rnd_src (delay 20 s2)) (rnd_pos (delay 20 s2))
         (nat (sint k - sint (i + 1)))\<rparr>"
      using "1.IH" [OF True, of "(rnd_src s (rnd_pos s) mod 500, s\<lparr>rnd_pos := Suc (rnd_pos s)\<rparr>)"
          "rnd_src s (rnd_pos s) mod 500" "s\<lparr>rnd_pos := Suc (rnd_pos s)\<rparr>" s2]
      by (simp add: random_max_def s2_def)
    also have "\<dots> = s\<lparr>rnd_pos := rnd_pos s + nat (sint k - sint i),
       trace := trace s @ tone_slices (rnd_src s) (rnd_pos s) (nat (sint k - sint i))\<rparr>"
      by (simp add: n tone_slices_Suc s2_def delay_def tone_def roll_pitch_def buzzerPin_def)
    finally show ?thesis .
  qed
qed

lemma playRollSound_run:
  "playRollSound k s =
     s\<lparr>rnd_pos := rnd_pos s + nat (sint k),
       trace := trace s @ tone_slices (rnd_src s) (rnd_pos s) (nat (sint k)) @ [NoTone 6]\<rparr>"
  by (simp add: playRollSound_def playRollSound_loop_run noTone_def buzzerPin_def)

text \<open>
  C4. For every \<open>k \<ge> 0\<close>, \<^verbatim>\<open>playRollSound(k)\<close> adds to the record \<open>k\<close> times a tone of
  20 ms followed by a pause of 20 ms, and then one \<^verbatim>\<open>noTone\<close>: exactly \<open>k\<close> tones,
  every pitch at least 500 and below 1000; it consumes one random value per tone. For
  \<open>k = 0\<close> the only call is \<^verbatim>\<open>noTone\<close>.
\<close>

theorem playRollSound_tones:
  assumes "0 \<le> sint k"
  shows "playRollSound k s =
           s\<lparr>rnd_pos := rnd_pos s + nat (sint k),
             trace := trace s @ tone_slices (rnd_src s) (rnd_pos s) (nat (sint k)) @ [NoTone 6]\<rparr>
       \<and> length (filter is_tone (tone_slices (rnd_src s) (rnd_pos s) (nat (sint k)))) = nat (sint k)
       \<and> (\<forall>p. 500 \<le> roll_pitch (rnd_src s) p \<and> roll_pitch (rnd_src s) p < 1000)
       \<and> (k = 0 \<longrightarrow> playRollSound k s = s\<lparr>trace := trace s @ [NoTone 6]\<rparr>)"
  by (simp add: playRollSound_run tone_slices_count roll_pitch_range tone_slices_0)

theorem playRollSound_tones_witness:
  "0 \<le> sint (2 :: cint)
   \<and> trace (playRollSound 2 (quiet_board (\<lambda>n. 37 * n + 611))) =
       [Tone 6 611 20, Delay 20, Tone 6 648 20, Delay 20, NoTone 6]
   \<and> rnd_pos (playRollSound 2 (quiet_board (\<lambda>n. 37 * n + 611))) = 2
   \<and> 0 \<le> sint (0 :: cint)
   \<and> trace (playRollSound 0 (quiet_board (\<lambda>n. 37 * n + 611))) = [NoTone 6]"
  using playRollSound_tones [of 2 "quiet_board (\<lambda>n. 37 * n + 611)"]
    playRollSound_tones [of 0 "quiet_board (\<lambda>n. 37 * n + 611)"]
  by (simp add: quiet_board_def tone_slices_def roll_pitch_def upt_rec)

lemma playStopSound_run:
  "playStopSound s = s\<lparr>trace := trace s @ [Tone 6 200 100, Delay 100, NoTone 6]\<rparr>"
  by (simp add: playStopSound_def noTone_def delay_def tone_def buzzerPin_def)

text \<open>
  C6. \<^verbatim>\<open>playStopSound()\<close>, from any state, adds exactly three calls to the record: one
  tone of 200 Hz for 100 ms on the buzzer, a pause of 100 ms, and \<^verbatim>\<open>noTone\<close>; nothing
  else changes.
\<close>

theorem playStopSound_events:
  "playStopSound s = s\<lparr>trace := trace s @ [Tone 6 200 100, Delay 100, NoTone 6]\<rparr>"
  by (rule playStopSound_run)

section \<open>Properties of the animation\<close>

lemma rollDice_loop_stop: "sint count \<le> sint i \<Longrightarrow> rollDice_loop i count d s = Some s"
  by (subst rollDice_loop.simps) (simp add: word_sless_alt)

text \<open>
  C10. With a count of zero or below, \<^verbatim>\<open>rollDice\<close> does not enter its loop: it returns
  with the state of the board, outputs and record of calls included, exactly as it was.
\<close>

theorem rollDice_nonpositive:
  assumes "sint count \<le> 0"
  shows "rollDice count delayTime s = Some s"
  using assms by (simp add: rollDice_def rollDice_loop_stop)

theorem rollDice_nonpositive_witness:
  "sint (0 :: cint) \<le> 0 \<and> sint (- 5 :: cint) \<le> 0
   \<and> rollDice 0 50 (quiet_board (\<lambda>n. n)) = Some (quiet_board (\<lambda>n. n))
   \<and> rollDice (- 5) 50 (quiet_board (\<lambda>n. n)) = Some (quiet_board (\<lambda>n. n))"
  using rollDice_nonpositive [of 0 50 "quiet_board (\<lambda>n. n)"]
    rollDice_nonpositive [of "- 5" 50 "quiet_board (\<lambda>n. n)"]
  by simp

lemma random_die:
  "random_range 1 7 s = (die_value (rnd_src s) (rnd_pos s), s\<lparr>rnd_pos := Suc (rnd_pos s)\<rparr>)"
  by (simp add: random_range_def random_max_def die_value_def)

lemma random_die_Suc:
  "random_range (Suc 0) 7 s =
     (die_value (rnd_src s) (rnd_pos s), s\<lparr>rnd_pos := Suc (rnd_pos s)\<rparr>)"
  using random_die [of s] by simp

lemma die_value_range: "1 \<le> die_value src p \<and> die_value src p \<le> 6"
proof -
  have "src p mod 6 < 6" by simp
  then show ?thesis unfolding die_value_def by linarith
qed

lemma sint_of_int_small: "- 32768 \<le> k \<Longrightarrow> k < 32768 \<Longrightarrow> sint (of_int k :: cint) = k"
  by (simp add: sint_sbintrunc' signed_take_bit_int_eq_self)

lemma sint_of_nat_small: "n < 32768 \<Longrightarrow> sint (of_nat n :: cint) = int n"
  using sint_of_int_small [of "int n"] by simp

lemma sint_die: "sint (of_nat (die_value src p) :: cint) = int (die_value src p)"
  using die_value_range [of src p] by (simp add: sint_of_nat_small)

lemma showNumber_seg1:
  "showNumber n seg1_pins s =
     Some (s\<lparr>outp := (outp s)(3 := bit_level (sint n) 0, 4 := bit_level (sint n) 1,
                               5 := bit_level (sint n) 2),
             trace := trace s @ show_events (sint n) [3, 4, 5]\<rparr>)"
  by (simp add: showNumber_unfold seg1_pins_def write_bit_def show_events_def)

lemma showNumber_seg2:
  "showNumber n seg2_pins s =
     Some (s\<lparr>outp := (outp s)(8 := bit_level (sint n) 0, 9 := bit_level (sint n) 1,
                               10 := bit_level (sint n) 2),
             trace := trace s @ show_events (sint n) [8, 9, 10]\<rparr>)"
  by (simp add: showNumber_unfold seg2_pins_def write_bit_def show_events_def)

lemma rollDice_body_run:
  "\<exists>s'. rollDice_body i d s = Some s'
        \<and> trace s' = trace s @ frame_events (rnd_src s) (rnd_pos s)
                        (nat (sint (roll_intensity i))) (ulong_of_int (d + i * 2))
        \<and> rnd_pos s' = rnd_pos s + nat (sint (roll_intensity i)) + 2
        \<and> rnd_src s' = rnd_src s \<and> inp s' = inp s"
  by (simp add: rollDice_body_def playRollSound_run random_die_Suc showNumber_seg1 showNumber_seg2
      sint_die frame_events_def delay_def Let_def)

lemma half_floor: "\<lfloor>(of_int a :: rat) / 2\<rfloor> = a div 2"
  using floor_divide_of_int_eq [of a 2, where ?'a = rat] by simp

lemma half_ceiling: "\<lceil>(of_int a :: rat) / 2\<rceil> = - ((- a) div 2)"
  using floor_divide_of_int_eq [of "- a" 2, where ?'a = rat] by (simp add: ceiling_def)

lemma sint_range: "- 32768 \<le> sint (w::cint) \<and> sint w \<le> 32767"
  using sint_ge [of w] sint_lt [of w] by simp

lemma roll_intensity_nonneg:
  assumes "0 \<le> sint i"
  shows "sint (roll_intensity i) = sint i div 2"
proof -
  have "roll_intensity i = of_int (sint i div 2)"
    using assms
    by (simp add: roll_intensity_def double_to_int_def int_to_double_def half_floor
        del: of_int_sint)
  moreover have "0 \<le> sint i div 2" "sint i div 2 < 32768"
    using assms sint_range [of i] by simp_all
  ultimately show ?thesis by (simp add: sint_of_int_small)
qed

lemma roll_intensity_neg:
  assumes "sint i < 0"
  shows "sint (roll_intensity i) = - ((- sint i) div 2)"
proof -
  have "roll_intensity i = of_int (- ((- sint i) div 2))"
    using assms
    by (simp add: roll_intensity_def double_to_int_def int_to_double_def half_ceiling
        del: of_int_sint of_int_minus)
  moreover have "- 32768 \<le> - ((- sint i) div 2)" "- ((- sint i) div 2) < 32768"
    using assms sint_range [of i] by simp_all
  ultimately show ?thesis by (simp only: sint_of_int_small)
qed

lemma delay_argument:
  assumes "0 \<le> sint d" and "0 \<le> sint i" and "sint d + 2 * sint i \<le> 32767"
  shows "ulong_of_int (d + i * 2) = nat (sint d) + nat (sint i) * 2"
proof -
  have "sint (i * 2) = signed_take_bit 15 (sint i * 2)"
    by (simp add: sint_word_ariths)
  also have "\<dots> = sint i * 2"
    using assms by (simp add: signed_take_bit_int_eq_self)
  finally have i2: "sint (i * 2) = sint i * 2" .
  have "sint (d + i * 2) = signed_take_bit 15 (sint d + sint (i * 2))"
    by (simp add: sint_word_ariths)
  also have "\<dots> = sint d + sint i * 2"
    using assms by (simp add: i2 signed_take_bit_int_eq_self)
  finally have "sint (d + i * 2) = sint d + sint i * 2" .
  then show ?thesis
    using assms by (simp add: ulong_of_int_def nat_add_distrib nat_mult_distrib)
qed

lemma frames_events_Nil: "frames_events src p d [] = []"
  by (simp add: frames_events_def)

lemma frames_events_Cons:
  "frames_events src p d (i # is) =
     frame_events src (p + frame_start i) (i div 2) (d + i * 2) @ frames_events src p d is"
  by (simp add: frames_events_def)

lemma rollDice_loop_step:
  "sint i < sint count \<Longrightarrow> rollDice_body i d s = Some s1 \<Longrightarrow>
   rollDice_loop i count d s = rollDice_loop (i + 1) count d s1"
  by (subst rollDice_loop.simps) (simp add: word_sless_alt)

lemma rollDice_loop_run:
  assumes "0 \<le> sint i" and "sint i \<le> sint count" and "0 \<le> sint d"
    and "sint i < sint count \<longrightarrow> sint d + 2 * (sint count - 1) \<le> 32767"
    and "rnd_pos s = p0 + frame_start (nat (sint i))"
  shows "\<exists>s'. rollDice_loop i count d s = Some s'
           \<and> trace s' = trace s @ frames_events (rnd_src s) p0 (nat (sint d))
                                    [nat (sint i)..<nat (sint count)]
           \<and> rnd_pos s' = p0 + frame_start (nat (sint count))
           \<and> rnd_src s' = rnd_src s \<and> inp s' = inp s"
  using assms
proof (induction i count d s rule: rollDice_loop.induct)
  case (1 i count d s)
  show ?case
  proof (cases "i <s count")
    case False
    with "1.prems" have eq: "sint i = sint count" by (simp add: word_sless_alt)
    then have "rollDice_loop i count d s = Some s" by (simp add: rollDice_loop_stop)
    with eq "1.prems" show ?thesis by (simp add: frames_events_Nil)
  next
    case True
    then have lt: "sint i < sint count" by (simp add: word_sless_alt)
    define I where "I = nat (sint i)"
    have succ: "sint (i + 1) = sint i + 1" using lt by (rule sint_succ)
    have I1: "nat (sint (i + 1)) = Suc I" using "1.prems"(1) by (simp add: succ I_def)
    have K: "nat (sint (roll_intensity i)) = I div 2"
      using "1.prems"(1) by (simp add: roll_intensity_nonneg I_def nat_div_distrib)
    have "sint d + 2 * sint i \<le> 32767" using "1.prems"(4) lt by simp
    then have ms: "ulong_of_int (d + i * 2) = nat (sint d) + I * 2"
      using "1.prems"(1,3) by (simp add: delay_argument I_def)
    from rollDice_body_run [of i d s] obtain s1 where
      body: "rollDice_body i d s = Some s1"
      and tr: "trace s1 = trace s @ frame_events (rnd_src s) (rnd_pos s) (I div 2)
                                      (nat (sint d) + I * 2)"
      and pos: "rnd_pos s1 = rnd_pos s + I div 2 + 2"
      and src: "rnd_src s1 = rnd_src s" and inp1: "inp s1 = inp s"
      by (auto simp: K ms)
    have pos1: "rnd_pos s1 = p0 + frame_start (nat (sint (i + 1)))"
      using pos "1.prems"(5) by (simp add: I1 I_def)
    have "\<exists>s'. rollDice_loop (i + 1) count d s1 = Some s'
           \<and> trace s' = trace s1 @ frames_events (rnd_src s1) p0 (nat (sint d))
                                    [nat (sint (i + 1))..<nat (sint count)]
           \<and> rnd_pos s' = p0 + frame_start (nat (sint count))
           \<and> rnd_src s' = rnd_src s1 \<and> inp s' = inp s1"
      using "1.IH" [OF True body] "1.prems"(1,3,4) lt pos1 by (simp add: succ)
    then obtain s' where
      run: "rollDice_loop (i + 1) count d s1 = Some s'"
      and tr': "trace s' = trace s1 @ frames_events (rnd_src s1) p0 (nat (sint d))
                                    [Suc I..<nat (sint count)]"
      and rest: "rnd_pos s' = p0 + frame_start (nat (sint count))"
        "rnd_src s' = rnd_src s1" "inp s' = inp s1"
      by (auto simp: I1)
    have "I < nat (sint count)" using lt "1.prems"(1) by (simp add: I_def)
    then have upt: "[I..<nat (sint count)] = I # [Suc I..<nat (sint count)]"
      by (simp add: upt_conv_Cons)
    have p5: "rnd_pos s = p0 + frame_start I" using "1.prems"(5) by (simp add: I_def)
    have "trace s' = trace s @ frames_events (rnd_src s) p0 (nat (sint d))
                                [I..<nat (sint count)]"
      by (simp add: tr' tr src upt frames_events_Cons p5)
    moreover have "rollDice_loop i count d s = Some s'"
      using rollDice_loop_step [OF lt body] run by simp
    ultimately show ?thesis using rest src inp1 by (simp add: I_def)
  qed
qed

lemma tone_slices_no_write: "filter (is_write_to q) (tone_slices src p k) = []"
  by (induction k arbitrary: p) (simp_all add: tone_slices_0 tone_slices_Suc)

lemma frame_events_writes:
  "q \<in> {3, 4, 5, 8, 9, 10} \<Longrightarrow>
   length (filter (is_write_to q) (frame_events src p k ms)) = 1"
  by (auto simp: frame_events_def show_events_def tone_slices_no_write)

lemma frames_events_writes:
  "q \<in> {3, 4, 5, 8, 9, 10} \<Longrightarrow>
   length (filter (is_write_to q) (frames_events src p d is)) = length is"
  by (induction "is")
     (simp_all add: frames_events_Nil frames_events_Cons frame_events_writes
        del: insert_iff)

lemma rollDice_run:
  assumes "0 \<le> sint count" and "0 \<le> sint d"
    and "0 < sint count \<longrightarrow> sint d + 2 * (sint count - 1) \<le> 32767"
  shows "\<exists>s'. rollDice count d s = Some s'
           \<and> trace s' = trace s @ frames_events (rnd_src s) (rnd_pos s) (nat (sint d))
                                    [0..<nat (sint count)]
           \<and> rnd_pos s' = rnd_pos s + frame_start (nat (sint count))
           \<and> rnd_src s' = rnd_src s \<and> inp s' = inp s"
  using assms rollDice_loop_run [of 0 count d s "rnd_pos s"]
  by (simp add: rollDice_def)

lemma of_nat_counter: "0 \<le> sint (i::cint) \<Longrightarrow> (of_nat (nat (sint i)) :: cint) = i"
  by simp

lemma paused_frames_Nil: "paused_frames src p pause [] = []"
  by (simp add: paused_frames_def)

lemma paused_frames_Cons:
  "paused_frames src p pause (i # is) =
     frame_events src (p + frame_start i) (i div 2) (pause i) @ paused_frames src p pause is"
  by (simp add: paused_frames_def)

lemma rollDice_loop_run_any:
  assumes "0 \<le> sint i" and "sint i \<le> sint count"
    and "rnd_pos s = p0 + frame_start (nat (sint i))"
  shows "\<exists>s'. rollDice_loop i count d s = Some s'
           \<and> trace s' = trace s @ paused_frames (rnd_src s) p0 (frame_pause d)
                                    [nat (sint i)..<nat (sint count)]
           \<and> rnd_pos s' = p0 + frame_start (nat (sint count))
           \<and> rnd_src s' = rnd_src s \<and> inp s' = inp s"
  using assms
proof (induction i count d s rule: rollDice_loop.induct)
  case (1 i count d s)
  show ?case
  proof (cases "i <s count")
    case False
    with "1.prems" have eq: "sint i = sint count" by (simp add: word_sless_alt)
    then have "rollDice_loop i count d s = Some s" by (simp add: rollDice_loop_stop)
    with eq "1.prems" show ?thesis by (simp add: paused_frames_Nil)
  next
    case True
    then have lt: "sint i < sint count" by (simp add: word_sless_alt)
    define I where "I = nat (sint i)"
    have succ: "sint (i + 1) = sint i + 1" using lt by (rule sint_succ)
    have I1: "nat (sint (i + 1)) = Suc I" using "1.prems"(1) by (simp add: succ I_def)
    have K: "nat (sint (roll_intensity i)) = I div 2"
      using "1.prems"(1) by (simp add: roll_intensity_nonneg I_def nat_div_distrib)
    have ms: "ulong_of_int (d + i * 2) = frame_pause d I"
      using of_nat_counter [OF "1.prems"(1)] by (simp add: frame_pause_def I_def)
    from rollDice_body_run [of i d s] obtain s1 where
      body: "rollDice_body i d s = Some s1"
      and tr: "trace s1 = trace s @ frame_events (rnd_src s) (rnd_pos s) (I div 2)
                                      (frame_pause d I)"
      and pos: "rnd_pos s1 = rnd_pos s + I div 2 + 2"
      and src: "rnd_src s1 = rnd_src s" and inp1: "inp s1 = inp s"
      by (auto simp: K ms)
    have pos1: "rnd_pos s1 = p0 + frame_start (nat (sint (i + 1)))"
      using pos "1.prems"(3) by (simp add: I1 I_def)
    have "\<exists>s'. rollDice_loop (i + 1) count d s1 = Some s'
           \<and> trace s' = trace s1 @ paused_frames (rnd_src s1) p0 (frame_pause d)
                                    [nat (sint (i + 1))..<nat (sint count)]
           \<and> rnd_pos s' = p0 + frame_start (nat (sint count))
           \<and> rnd_src s' = rnd_src s1 \<and> inp s' = inp s1"
      using "1.IH" [OF True body] "1.prems"(1) lt pos1 by (simp add: succ)
    then obtain s' where
      run: "rollDice_loop (i + 1) count d s1 = Some s'"
      and tr': "trace s' = trace s1 @ paused_frames (rnd_src s1) p0 (frame_pause d)
                                    [Suc I..<nat (sint count)]"
      and rest: "rnd_pos s' = p0 + frame_start (nat (sint count))"
        "rnd_src s' = rnd_src s1" "inp s' = inp s1"
      by (auto simp: I1)
    have "I < nat (sint count)" using lt "1.prems"(1) by (simp add: I_def)
    then have upt: "[I..<nat (sint count)] = I # [Suc I..<nat (sint count)]"
      by (simp add: upt_conv_Cons)
    have p5: "rnd_pos s = p0 + frame_start I" using "1.prems"(3) by (simp add: I_def)
    have "trace s' = trace s @ paused_frames (rnd_src s) p0 (frame_pause d)
                                [I..<nat (sint count)]"
      by (simp add: tr' tr src upt paused_frames_Cons p5)
    moreover have "rollDice_loop i count d s = Some s'"
      using rollDice_loop_step [OF lt body] run by simp
    ultimately show ?thesis using rest src inp1 by (simp add: I_def)
  qed
qed

lemma rollDice_run_any:
  assumes "0 \<le> sint count"
  shows "\<exists>s'. rollDice count d s = Some s'
           \<and> trace s' = trace s @ paused_frames (rnd_src s) (rnd_pos s) (frame_pause d)
                                    [0..<nat (sint count)]
           \<and> rnd_pos s' = rnd_pos s + frame_start (nat (sint count))
           \<and> rnd_src s' = rnd_src s \<and> inp s' = inp s"
  using assms rollDice_loop_run_any [of 0 count s "rnd_pos s" d]
  by (simp add: rollDice_def)




lemma frame_tones_slices:
  "frame_tones a (tone_slices src p k @ es) = frame_tones (a + k) es"
  by (induction k arbitrary: a p) (simp_all add: tone_slices_0 tone_slices_Suc)

lemma frame_tones_frame:
  "frame_tones 0 (frame_events src p k ms @ es) = k # frame_tones 0 es"
  by (simp add: frame_events_def frame_tones_slices show_events_def)

lemma frame_tones_frames:
  "frame_tones 0 (paused_frames src p pause is) = map (\<lambda>i. i div 2) is"
  by (induction "is")
     (simp_all add: paused_frames_Nil paused_frames_Cons frame_tones_frame)




lemma show_events_no_tone: "filter is_tone (show_events n ps) = []"
  by (simp add: show_events_def)

lemma frame_events_tones: "length (filter is_tone (frame_events src p k ms)) = k"
  by (simp add: frame_events_def show_events_no_tone tone_slices_count)

text \<open>
  C5. In frame \<open>i\<close> of \<^verbatim>\<open>rollDice\<close> the intensity passed to the roll sound is
  \<open>i * 0.5\<close> with its fractional part discarded, that is \<open>i div 2\<close>, and the frame
  plays exactly that many tones: for every count \<open>\<ge> 0\<close> and every delay, the numbers of
  tones of the frames of \<^verbatim>\<open>rollDice(count, delay)\<close> are \<open>0, 0, 1, 1, 2, 2, \<dots>\<close>, so
  frames 0 and 1 are silent and the intensity grows half as fast as the frame index.
  (For a negative argument the conversion rounds towards zero, not down.)
\<close>

theorem rollDice_frame_intensity:
  assumes "0 \<le> sint count"
  shows "(\<exists>s'. rollDice count delayTime s = Some s'
            \<and> frame_tones 0 (drop (length (trace s)) (trace s'))
                = map (\<lambda>i. i div 2) [0..<nat (sint count)]
            \<and> (nat (sint count) \<le> 2 \<longrightarrow>
                  filter is_tone (drop (length (trace s)) (trace s')) = []))
       \<and> (\<forall>i < nat (sint count). sint (roll_intensity (of_nat i)) = int (i div 2))
       \<and> (0 \<le> sint j \<longrightarrow> sint (roll_intensity j) = sint j div 2)
       \<and> (sint j < 0 \<longrightarrow> sint (roll_intensity j) = - ((- sint j) div 2))"
proof -
  from rollDice_run_any [OF assms, of delayTime s] obtain s' where
    run: "rollDice count delayTime s = Some s'"
    and tr: "trace s' = trace s @ paused_frames (rnd_src s) (rnd_pos s) (frame_pause delayTime)
                                    [0..<nat (sint count)]"
    by blast
  have tones: "frame_tones 0 (drop (length (trace s)) (trace s'))
                = map (\<lambda>i. i div 2) [0..<nat (sint count)]"
    by (simp add: tr frame_tones_frames)
  have silent: "filter is_tone (drop (length (trace s)) (trace s')) = []"
    if "nat (sint count) \<le> 2"
  proof -
    have "\<forall>i \<in> set [0..<nat (sint count)]. i div 2 = 0" using that by auto
    then have "filter is_tone (paused_frames (rnd_src s) (rnd_pos s) (frame_pause delayTime)
        [0..<nat (sint count)]) = []"
      by (induction "[0..<nat (sint count)]" arbitrary: count)
         (auto simp: paused_frames_def frame_events_def tone_slices_def show_events_def)
    then show ?thesis by (simp add: tr)
  qed
  have arg: "\<forall>i < nat (sint count). sint (roll_intensity (of_nat i)) = int (i div 2)"
  proof (intro allI impI)
    fix i assume "i < nat (sint count)"
    then have "i < 32768" using sint_range [of count] by linarith
    then have "sint (of_nat i :: cint) = int i" by (rule sint_of_nat_small)
    then show "sint (roll_intensity (of_nat i)) = int (i div 2)"
      using roll_intensity_nonneg [of "of_nat i"] by (simp add: zdiv_int)
  qed
  from run tones silent arg show ?thesis
    by (auto simp: roll_intensity_nonneg roll_intensity_neg)
qed

theorem rollDice_frame_intensity_witness:
  "0 \<le> sint (5 :: cint)
   \<and> map_option (frame_tones 0 \<circ> trace) (rollDice 5 50 (quiet_board (\<lambda>n. 37 * n + 611)))
       = Some [0, 0, 1, 1, 2]
   \<and> 0 \<le> sint (2 :: cint) \<and> nat (sint (2 :: cint)) \<le> 2
   \<and> map_option (filter is_tone \<circ> trace) (rollDice 2 (- 7) (quiet_board (\<lambda>n. 37 * n + 611)))
       = Some []
   \<and> (4 :: nat) < nat (sint (5 :: cint)) \<and> sint (roll_intensity (of_nat 4)) = 2
   \<and> sint (roll_intensity 19) = 9
   \<and> sint (- 3 :: cint) < 0 \<and> sint (roll_intensity (- 3)) = - 1"
proof -
  have five: "[0..<5] = [0, 1, 2, 3, 4]" by (simp add: upt_rec)
  from rollDice_frame_intensity [of 5 50 "quiet_board (\<lambda>n. 37 * n + 611)" 19]
  obtain s5 where "rollDice 5 50 (quiet_board (\<lambda>n. 37 * n + 611)) = Some s5"
    and "frame_tones 0 (drop (length (trace (quiet_board (\<lambda>n. 37 * n + 611)))) (trace s5))
          = map (\<lambda>i. i div 2) [0..<nat (sint (5 :: cint))]"
    and args: "\<forall>i < nat (sint (5 :: cint)). sint (roll_intensity (of_nat i)) = int (i div 2)"
    and "sint (roll_intensity 19) = 9"
    by auto
  then have a: "map_option (frame_tones 0 \<circ> trace)
        (rollDice 5 50 (quiet_board (\<lambda>n. 37 * n + 611))) = Some [0, 0, 1, 1, 2]"
    "sint (roll_intensity 19) = 9"
    by (simp_all add: five quiet_board_def)
  have a4: "sint (roll_intensity (of_nat 4)) = 2"
    using args [rule_format, of 4] by simp
  from rollDice_frame_intensity [of 2 "- 7" "quiet_board (\<lambda>n. 37 * n + 611)" "- 3"]
  obtain s2 where "rollDice 2 (- 7) (quiet_board (\<lambda>n. 37 * n + 611)) = Some s2"
    and "filter is_tone (drop (length (trace (quiet_board (\<lambda>n. 37 * n + 611)))) (trace s2)) = []"
    and "sint (roll_intensity (- 3)) = - 1"
    by auto
  then have b: "map_option (filter is_tone \<circ> trace)
        (rollDice 2 (- 7) (quiet_board (\<lambda>n. 37 * n + 611))) = Some []"
    "sint (roll_intensity (- 3)) = - 1"
    by (simp_all add: quiet_board_def)
  from a a4 b show ?thesis by simp
qed

section \<open>Properties of the event loop\<close>

lemma showResult_run:
  "\<exists>s'. showResult s = Some s'
        \<and> trace s' = trace s @ show_events (int (die_value (rnd_src s) (rnd_pos s))) [3, 4, 5]
                              @ show_events (int (die_value (rnd_src s) (rnd_pos s + 1))) [8, 9, 10]
        \<and> rnd_pos s' = rnd_pos s + 2 \<and> rnd_src s' = rnd_src s \<and> inp s' = inp s"
  by (simp add: showResult_def random_die_Suc showNumber_seg1 showNumber_seg2 sint_die)

lemma frame_start_19: "frame_start 19 = 119"
  by code_simp

lemma frame_start_20: "frame_start 20 = 130"
  by code_simp

lemma frames_events_append:
  "frames_events src p d (is @ js) = frames_events src p d is @ frames_events src p d js"
  by (simp add: frames_events_def)

lemma frames_events_20:
  "frames_events src p 50 [0..<20] =
     frames_events src p 50 [0..<19] @ frame_events src (p + 119) 9 88"
proof -
  have "[0..<20] = [0..<19] @ [19::nat]"
    using upt_Suc_append [of 0 19] by simp
  then show ?thesis
    by (simp add: frames_events_append frames_events_Cons frames_events_Nil frame_start_19)
qed

lemma loop_idle:
  "digitalRead (ucast button1) s \<noteq> LOW \<Longrightarrow> digitalRead (ucast button2) s \<noteq> LOW \<Longrightarrow>
   loop s = Some s"
  by (simp add: loop_def)

lemma loop_run:
  assumes "digitalRead (ucast button1) s = LOW \<or> digitalRead (ucast button2) s = LOW"
  shows "\<exists>s'. loop s = Some s'
           \<and> trace s' = trace s @ frames_events (rnd_src s) (rnd_pos s) 50 [0..<20]
                 @ [Tone 6 200 100, Delay 100, NoTone 6]
                 @ show_events (int (die_value (rnd_src s) (rnd_pos s + 130))) [3, 4, 5]
                 @ show_events (int (die_value (rnd_src s) (rnd_pos s + 131))) [8, 9, 10]
                 @ [Delay 300]
           \<and> rnd_pos s' = rnd_pos s + 132 \<and> rnd_src s' = rnd_src s \<and> inp s' = inp s"
proof -
  have "\<exists>s1. rollDice 20 50 s = Some s1
           \<and> trace s1 = trace s @ frames_events (rnd_src s) (rnd_pos s) (nat (sint (50 :: cint)))
                                    [0..<nat (sint (20 :: cint))]
           \<and> rnd_pos s1 = rnd_pos s + frame_start (nat (sint (20 :: cint)))
           \<and> rnd_src s1 = rnd_src s \<and> inp s1 = inp s"
    by (rule rollDice_run) simp_all
  then obtain s1 where roll: "rollDice 20 50 s = Some s1"
    and tr1: "trace s1 = trace s @ frames_events (rnd_src s) (rnd_pos s) 50 [0..<20]"
    and pos1: "rnd_pos s1 = rnd_pos s + 130"
    and src1: "rnd_src s1 = rnd_src s" and inp1: "inp s1 = inp s"
    by (auto simp: frame_start_20)
  from showResult_run [of "playStopSound s1"] obtain s2 where
    res: "showResult (playStopSound s1) = Some s2"
    and tr2: "trace s2 = trace (playStopSound s1)
        @ show_events (int (die_value (rnd_src (playStopSound s1)) (rnd_pos (playStopSound s1)))) [3, 4, 5]
        @ show_events (int (die_value (rnd_src (playStopSound s1)) (rnd_pos (playStopSound s1) + 1))) [8, 9, 10]"
    and pos2: "rnd_pos s2 = rnd_pos (playStopSound s1) + 2"
    and src2: "rnd_src s2 = rnd_src (playStopSound s1)"
    and inp2: "inp s2 = inp (playStopSound s1)"
    by blast
  have "loop s = Some (delay 300 s2)"
    using assms roll res by (simp add: loop_def)
  moreover have "trace (delay 300 s2) = trace s @ frames_events (rnd_src s) (rnd_pos s) 50 [0..<20]
                 @ [Tone 6 200 100, Delay 100, NoTone 6]
                 @ show_events (int (die_value (rnd_src s) (rnd_pos s + 130))) [3, 4, 5]
                 @ show_events (int (die_value (rnd_src s) (rnd_pos s + 131))) [8, 9, 10]
                 @ [Delay 300]"
    by (simp add: delay_def tr2 playStopSound_run tr1 pos1 src1 add.commute)
  moreover have "rnd_pos (delay 300 s2) = rnd_pos s + 132"
    "rnd_src (delay 300 s2) = rnd_src s" "inp (delay 300 s2) = inp s"
    by (simp_all add: delay_def pos2 src2 inp2 playStopSound_run pos1 src1 inp1)
  ultimately show ?thesis by blast
qed

lemma stop_tone_not_in_frames:
  "Tone 6 200 100 \<notin> set (frames_events src p d is)"
  by (auto simp: frames_events_def frame_events_def tone_slices_def show_events_def)

lemma debounce_not_in_frames:
  "\<forall>i \<in> set is. d + i * 2 \<noteq> 300 \<Longrightarrow> Delay 300 \<notin> set (frames_events src p d is)"
  by (auto simp: frames_events_def frame_events_def tone_slices_def show_events_def)

lemma debounce_not_in_animation: "Delay 300 \<notin> set (frames_events src p 50 [0..<20])"
  by (rule debounce_not_in_frames) auto

text \<open>
  C2. When either button, or both, reads low at a poll, \<^verbatim>\<open>loop\<close> returns after one roll
  cycle whose calls are, in order: the 20 frames of the animation with base delay 50
  (frame \<open>i\<close> pausing \<open>50 + i * 2\<close> ms), the stop sound, the display of two further
  random values (one per die), and a pause of 300 ms. The stop tone and the 300 ms pause
  each occur exactly once among these calls: there is no second cycle in the poll,
  whatever the other button reads.
\<close>

theorem loop_one_cycle:
  assumes "digitalRead (ucast button1) s = LOW \<or> digitalRead (ucast button2) s = LOW"
  shows "\<exists>s'. loop s = Some s'
           \<and> trace s' = trace s @ frames_events (rnd_src s) (rnd_pos s) 50 [0..<20]
                 @ [Tone 6 200 100, Delay 100, NoTone 6]
                 @ show_events (int (die_value (rnd_src s) (rnd_pos s + 130))) [3, 4, 5]
                 @ show_events (int (die_value (rnd_src s) (rnd_pos s + 131))) [8, 9, 10]
                 @ [Delay 300]
           \<and> count_list (drop (length (trace s)) (trace s')) (Tone 6 200 100) = 1
           \<and> count_list (drop (length (trace s)) (trace s')) (Delay 300) = 1"
proof -
  from loop_run [OF assms] obtain s' where
    run: "loop s = Some s'"
    and tr: "trace s' = trace s @ frames_events (rnd_src s) (rnd_pos s) 50 [0..<20]
                 @ [Tone 6 200 100, Delay 100, NoTone 6]
                 @ show_events (int (die_value (rnd_src s) (rnd_pos s + 130))) [3, 4, 5]
                 @ show_events (int (die_value (rnd_src s) (rnd_pos s + 131))) [8, 9, 10]
                 @ [Delay 300]"
    by blast
  have a: "count_list (frames_events (rnd_src s) (rnd_pos s) 50 [0..<20]) (Tone 6 200 100) = 0"
    by (simp only: count_list_0_iff stop_tone_not_in_frames not_False_eq_True)
  have b: "count_list (frames_events (rnd_src s) (rnd_pos s) 50 [0..<20]) (Delay 300) = 0"
    by (simp only: count_list_0_iff debounce_not_in_animation not_False_eq_True)
  have "count_list (drop (length (trace s)) (trace s')) (Tone 6 200 100) = 1"
    by (simp add: tr a show_events_def)
  moreover have "count_list (drop (length (trace s)) (trace s')) (Delay 300) = 1"
    by (simp add: tr b show_events_def)
  ultimately show ?thesis using run tr by blast
qed

theorem loop_one_cycle_witness:
  "(digitalRead (ucast button1) ((quiet_board (\<lambda>n. 37 * n + 611))\<lparr>inp := (\<lambda>p. LOW)\<rparr>) = LOW
      \<or> digitalRead (ucast button2) ((quiet_board (\<lambda>n. 37 * n + 611))\<lparr>inp := (\<lambda>p. LOW)\<rparr>) = LOW)
   \<and> map_option (\<lambda>s'. take 8 (trace s'))
        (loop ((quiet_board (\<lambda>n. 37 * n + 611))\<lparr>inp := (\<lambda>p. LOW)\<rparr>)) =
       Some [NoTone 6,
             DigitalWrite 3 LOW, DigitalWrite 4 HIGH, DigitalWrite 5 HIGH,
             DigitalWrite 8 HIGH, DigitalWrite 9 LOW, DigitalWrite 10 LOW,
             Delay 50]
   \<and> map_option (\<lambda>s'. take 10 (rev (trace s')))
        (loop ((quiet_board (\<lambda>n. 37 * n + 611))\<lparr>inp := (\<lambda>p. LOW)\<rparr>)) =
       Some [Delay 300,
             DigitalWrite 10 HIGH, DigitalWrite 9 LOW, DigitalWrite 8 HIGH,
             DigitalWrite 5 HIGH, DigitalWrite 4 LOW, DigitalWrite 3 LOW,
             NoTone 6, Delay 100, Tone 6 200 100]
   \<and> map_option (\<lambda>s'. count_list (trace s') (Tone 6 200 100))
        (loop ((quiet_board (\<lambda>n. 37 * n + 611))\<lparr>inp := (\<lambda>p. LOW)\<rparr>)) = Some 1"
proof -
  define B where "B = (quiet_board (\<lambda>n. 37 * n + 611))\<lparr>inp := (\<lambda>p. LOW)\<rparr>"
  have pressed: "digitalRead (ucast button1) B = LOW \<or> digitalRead (ucast button2) B = LOW"
    by (simp add: B_def digitalRead_def)
  have B: "trace B = []" "rnd_pos B = 0" "rnd_src B = (\<lambda>n. 37 * n + 611)"
    by (simp_all add: B_def quiet_board_def)
  have first: "[0..<20] = 0 # [1..<20]" by (simp add: upt_conv_Cons)
  from loop_one_cycle [OF pressed] obtain s' where
    run: "loop B = Some s'"
    and tr: "trace s' = frames_events (\<lambda>n. 37 * n + 611) 0 50 [0..<20]
                 @ [Tone 6 200 100, Delay 100, NoTone 6]
                 @ show_events (int (die_value (\<lambda>n. 37 * n + 611) 130)) [3, 4, 5]
                 @ show_events (int (die_value (\<lambda>n. 37 * n + 611) 131)) [8, 9, 10]
                 @ [Delay 300]"
    and one: "count_list (trace s') (Tone 6 200 100) = 1"
    by (auto simp: B)
  have "take 8 (trace s') =
       [NoTone 6,
        DigitalWrite 3 LOW, DigitalWrite 4 HIGH, DigitalWrite 5 HIGH,
        DigitalWrite 8 HIGH, DigitalWrite 9 LOW, DigitalWrite 10 LOW,
        Delay 50]"
    unfolding tr first
    by (simp add: frames_events_Cons frame_events_def tone_slices_def
        die_value_def show_events_def bit_level_def)
  moreover have "take 10 (rev (trace s')) =
       [Delay 300,
        DigitalWrite 10 HIGH, DigitalWrite 9 LOW, DigitalWrite 8 HIGH,
        DigitalWrite 5 HIGH, DigitalWrite 4 LOW, DigitalWrite 3 LOW,
        NoTone 6, Delay 100, Tone 6 200 100]"
    unfolding tr
    by (simp add: die_value_def show_events_def bit_level_def)
  ultimately show ?thesis
    using pressed run one unfolding B_def by simp
qed

text \<open>
  C7. The result shown at the end of a roll cycle comes from two random values of its
  own: \<^verbatim>\<open>showResult\<close> takes the next two values of the random sequence, reduces each to
  1..6 and displays one per die. In a cycle these are the values at positions 130 and
  131 after the start, taken after the animation and the stop sound, while the last
  animation frame displayed the values at positions 128 and 129. Nothing ties the two
  pairs together: there are random sequences for which they differ.
\<close>

theorem final_result_fresh:
  assumes "digitalRead (ucast button1) s = LOW \<or> digitalRead (ucast button2) s = LOW"
  shows "(\<exists>s'. loop s = Some s'
           \<and> trace s' = trace s @ frames_events (rnd_src s) (rnd_pos s) 50 [0..<19]
                 @ tone_slices (rnd_src s) (rnd_pos s + 119) 9 @ [NoTone 6]
                 @ show_events (int (die_value (rnd_src s) (rnd_pos s + 128))) [3, 4, 5]
                 @ show_events (int (die_value (rnd_src s) (rnd_pos s + 129))) [8, 9, 10]
                 @ [Delay 88]
                 @ [Tone 6 200 100, Delay 100, NoTone 6]
                 @ show_events (int (die_value (rnd_src s) (rnd_pos s + 130))) [3, 4, 5]
                 @ show_events (int (die_value (rnd_src s) (rnd_pos s + 131))) [8, 9, 10]
                 @ [Delay 300])
       \<and> (\<exists>t'. showResult t = Some t'
             \<and> trace t' = trace t
                   @ show_events (int (die_value (rnd_src t) (rnd_pos t))) [3, 4, 5]
                   @ show_events (int (die_value (rnd_src t) (rnd_pos t + 1))) [8, 9, 10]
             \<and> rnd_pos t' = rnd_pos t + 2)
       \<and> (\<forall>p. 1 \<le> die_value (rnd_src s) p \<and> die_value (rnd_src s) p \<le> 6)
       \<and> (\<exists>src. die_value src 130 \<noteq> die_value src 128
                 \<and> die_value src 131 \<noteq> die_value src 129)"
proof -
  from loop_run [OF assms] obtain s' where
    run: "loop s = Some s'"
    and tr: "trace s' = trace s @ frames_events (rnd_src s) (rnd_pos s) 50 [0..<20]
                 @ [Tone 6 200 100, Delay 100, NoTone 6]
                 @ show_events (int (die_value (rnd_src s) (rnd_pos s + 130))) [3, 4, 5]
                 @ show_events (int (die_value (rnd_src s) (rnd_pos s + 131))) [8, 9, 10]
                 @ [Delay 300]"
    by blast
  have "trace s' = trace s @ frames_events (rnd_src s) (rnd_pos s) 50 [0..<19]
                 @ tone_slices (rnd_src s) (rnd_pos s + 119) 9 @ [NoTone 6]
                 @ show_events (int (die_value (rnd_src s) (rnd_pos s + 128))) [3, 4, 5]
                 @ show_events (int (die_value (rnd_src s) (rnd_pos s + 129))) [8, 9, 10]
                 @ [Delay 88]
                 @ [Tone 6 200 100, Delay 100, NoTone 6]
                 @ show_events (int (die_value (rnd_src s) (rnd_pos s + 130))) [3, 4, 5]
                 @ show_events (int (die_value (rnd_src s) (rnd_pos s + 131))) [8, 9, 10]
                 @ [Delay 300]"
    by (simp add: tr frames_events_20 frame_events_def add.assoc add.commute)
  with run have cycle: "\<exists>s'. loop s = Some s'
           \<and> trace s' = trace s @ frames_events (rnd_src s) (rnd_pos s) 50 [0..<19]
                 @ tone_slices (rnd_src s) (rnd_pos s + 119) 9 @ [NoTone 6]
                 @ show_events (int (die_value (rnd_src s) (rnd_pos s + 128))) [3, 4, 5]
                 @ show_events (int (die_value (rnd_src s) (rnd_pos s + 129))) [8, 9, 10]
                 @ [Delay 88]
                 @ [Tone 6 200 100, Delay 100, NoTone 6]
                 @ show_events (int (die_value (rnd_src s) (rnd_pos s + 130))) [3, 4, 5]
                 @ show_events (int (die_value (rnd_src s) (rnd_pos s + 131))) [8, 9, 10]
                 @ [Delay 300]"
    by blast
  have result: "\<exists>t'. showResult t = Some t'
             \<and> trace t' = trace t
                   @ show_events (int (die_value (rnd_src t) (rnd_pos t))) [3, 4, 5]
                   @ show_events (int (die_value (rnd_src t) (rnd_pos t + 1))) [8, 9, 10]
             \<and> rnd_pos t' = rnd_pos t + 2"
    using showResult_run [of t] by blast
  have differ: "\<exists>src. die_value src 130 \<noteq> die_value src 128
                 \<and> die_value src 131 \<noteq> die_value src 129"
    by (rule exI [of _ id]) (simp add: die_value_def)
  from cycle result die_value_range differ show ?thesis by blast
qed

theorem final_result_fresh_witness:
  "(digitalRead (ucast button1)
        ((quiet_board (\<lambda>n. 37 * n + 611))\<lparr>inp := (\<lambda>p. if p = 11 then LOW else HIGH)\<rparr>) = LOW
      \<or> digitalRead (ucast button2)
        ((quiet_board (\<lambda>n. 37 * n + 611))\<lparr>inp := (\<lambda>p. if p = 11 then LOW else HIGH)\<rparr>) = LOW)
   \<and> map_option (\<lambda>s'. take 17 (rev (trace s')))
        (loop ((quiet_board (\<lambda>n. 37 * n + 611))\<lparr>inp := (\<lambda>p. if p = 11 then LOW else HIGH)\<rparr>)) =
       Some [Delay 300,
             DigitalWrite 10 HIGH, DigitalWrite 9 LOW, DigitalWrite 8 HIGH,
             DigitalWrite 5 HIGH, DigitalWrite 4 LOW, DigitalWrite 3 LOW,
             NoTone 6, Delay 100, Tone 6 200 100,
             Delay 88,
             DigitalWrite 10 LOW, DigitalWrite 9 HIGH, DigitalWrite 8 HIGH,
             DigitalWrite 5 LOW, DigitalWrite 4 HIGH, DigitalWrite 3 LOW]
   \<and> die_value (\<lambda>n. 37 * n + 611) 128 = 2 \<and> die_value (\<lambda>n. 37 * n + 611) 129 = 3
   \<and> die_value (\<lambda>n. 37 * n + 611) 130 = 4 \<and> die_value (\<lambda>n. 37 * n + 611) 131 = 5"
proof -
  define B where
    "B = (quiet_board (\<lambda>n. 37 * n + 611))\<lparr>inp := (\<lambda>p. if p = 11 then LOW else HIGH)\<rparr>"
  have pressed: "digitalRead (ucast button1) B = LOW \<or> digitalRead (ucast button2) B = LOW"
    by (simp add: B_def digitalRead_def button2_def)
  have B: "trace B = []" "rnd_pos B = 0" "rnd_src B = (\<lambda>n. 37 * n + 611)"
    by (simp_all add: B_def quiet_board_def)
  from final_result_fresh [OF pressed, of B] obtain s' where
    run: "loop B = Some s'"
    and tr: "trace s' = frames_events (\<lambda>n. 37 * n + 611) 0 50 [0..<19]
                 @ tone_slices (\<lambda>n. 37 * n + 611) 119 9 @ [NoTone 6]
                 @ show_events (int (die_value (\<lambda>n. 37 * n + 611) 128)) [3, 4, 5]
                 @ show_events (int (die_value (\<lambda>n. 37 * n + 611) 129)) [8, 9, 10]
                 @ [Delay 88]
                 @ [Tone 6 200 100, Delay 100, NoTone 6]
                 @ show_events (int (die_value (\<lambda>n. 37 * n + 611) 130)) [3, 4, 5]
                 @ show_events (int (die_value (\<lambda>n. 37 * n + 611) 131)) [8, 9, 10]
                 @ [Delay 300]"
    by (auto simp: B)
  have "take 17 (rev (trace s')) =
       [Delay 300,
        DigitalWrite 10 HIGH, DigitalWrite 9 LOW, DigitalWrite 8 HIGH,
        DigitalWrite 5 HIGH, DigitalWrite 4 LOW, DigitalWrite 3 LOW,
        NoTone 6, Delay 100, Tone 6 200 100,
        Delay 88,
        DigitalWrite 10 LOW, DigitalWrite 9 HIGH, DigitalWrite 8 HIGH,
        DigitalWrite 5 LOW, DigitalWrite 4 HIGH, DigitalWrite 3 LOW]"
    unfolding tr
    by (simp add: die_value_def show_events_def bit_level_def)
  then show ?thesis
    using pressed run unfolding B_def by (simp add: die_value_def)
qed

end
